theory Spec2Isabelle
  imports Main "HOL-Library.Sublist"
begin

section \<open>Kindle highlights converter: a shallow embedding of convert.py\<close>

text \<open>
  The program reads a Kindle clippings file, splits it into highlight records, groups
  the records by book title and writes one Word document per book. Python strings are
  sequences of Unicode code points, so a string is modelled as a list of code points
  (natural numbers); \<open>lit\<close> turns an ASCII literal into such a list.
\<close>

subsection \<open>Python strings\<close>

type_synonym pystr = "nat list"

definition lit :: "string \<Rightarrow> pystr" where
  "lit s = map of_char s"

text \<open>
  Whitespace as \<open>str.strip()\<close> and the regular expression class \<open>\s\<close> (on a
  \<open>str\<close> pattern) see it: both test \<open>Py_UNICODE_ISSPACE\<close>. The code points are
  TAB, LF, VT, FF, CR, FS, GS, RS, US, SPACE, NEL, NBSP, U+1680, U+2000 to U+200A,
  U+2028, U+2029, U+202F, U+205F and U+3000.
\<close>

definition is_space :: "nat \<Rightarrow> bool" where
  "is_space c = (c \<in> {9, 10, 11, 12, 13, 28, 29, 30, 31, 32, 133, 160, 5760,
                       8232, 8233, 8239, 8287, 12288} \<or> (8192 \<le> c \<and> c \<le> 8202))"

text \<open>\<open>s.strip()\<close>: leading and trailing whitespace removed.\<close>

definition strip :: "pystr \<Rightarrow> pystr" where
  "strip s = rev (dropWhile is_space (rev (dropWhile is_space s)))"

text \<open>
  \<open>s.split(sep)\<close> for a non-empty separator: the occurrences of \<open>sep\<close> are found
  from left to right and do not overlap. \<open>split_from sep cur s\<close> scans \<open>s\<close> with the
  piece \<open>cur\<close> read so far. The program only splits on constant, non-empty separators
  (Python raises \<open>ValueError\<close> on an empty one; with an empty separator this model
  does not split at all).
\<close>

function split_from :: "'a list \<Rightarrow> 'a list \<Rightarrow> 'a list \<Rightarrow> 'a list list" where
  "split_from sep cur [] = [cur]"
| "split_from sep cur (c # cs) =
     (if sep \<noteq> [] \<and> prefix sep (c # cs)
      then cur # split_from sep [] (drop (length sep) (c # cs))
      else split_from sep (cur @ [c]) cs)"
  by pat_completeness auto
termination
  by (relation "measure (\<lambda>(sep, cur, s). length s)") auto

definition split_str :: "'a list \<Rightarrow> 'a list \<Rightarrow> 'a list list" where
  "split_str sep s = split_from sep [] s"

text \<open>
  \<open>s.replace(old, new)\<close> for a non-empty \<open>old\<close>: every occurrence, found from
  left to right without overlap, is replaced.
\<close>

function replace_str :: "'a list \<Rightarrow> 'a list \<Rightarrow> 'a list \<Rightarrow> 'a list" where
  "replace_str old new [] = []"
| "replace_str old new (c # cs) =
     (if old \<noteq> [] \<and> prefix old (c # cs)
      then new @ replace_str old new (drop (length old) (c # cs))
      else c # replace_str old new cs)"
  by pat_completeness auto
termination
  by (relation "measure (\<lambda>(old, new, s). length s)") auto

text \<open>\<open>sep.join(xs)\<close>.\<close>

fun join_str :: "'a list \<Rightarrow> 'a list list \<Rightarrow> 'a list" where
  "join_str sep [] = []"
| "join_str sep [x] = x"
| "join_str sep (x # y # ys) = x @ sep @ join_str sep (y # ys)"

text \<open>\<open>str(n)\<close> for a non-negative integer: its decimal digits.\<close>

function str_of_nat :: "nat \<Rightarrow> pystr" where
  "str_of_nat n = (if n < 10 then [48 + n] else str_of_nat (n div 10) @ [48 + n mod 10])"
  by pat_completeness auto
termination
  by (relation "measure id") auto

declare str_of_nat.simps [simp del]

subsection \<open>Filename sanitization\<close>

text \<open>The characters of the class \<open>[<>:"/\\|?*]\<close>, as code points.\<close>

definition forbidden :: "nat list" where
  "forbidden = [60, 62, 58, 34, 47, 92, 124, 63, 42]"

text \<open>The string of three full stops.\<close>

definition dots :: pystr where
  "dots = [46, 46, 46]"

definition sanitize_filename :: "pystr \<Rightarrow> pystr" where
  "sanitize_filename filename =
     (let filename1 = filter (\<lambda>c. c \<notin> set forbidden) filename;
          filename2 = replace_str dots [] filename1;
          filename3 = strip filename2
      in if length filename3 > 100 then take 100 filename3 else filename3)"

subsection \<open>Book titles\<close>

text \<open>
  \<open>re.sub(r'\([^)]*\)', '', s)\<close>: scanning from the left, an opening parenthesis
  that has a closing parenthesis somewhere after it is removed together with everything
  up to and including the first closing parenthesis that follows; any other character
  is kept.
\<close>

function remove_parens :: "pystr \<Rightarrow> pystr" where
  "remove_parens [] = []"
| "remove_parens (c # cs) =
     (if c = 40 \<and> 41 \<in> set cs
      then remove_parens (tl (dropWhile (\<lambda>x. x \<noteq> 41) cs))
      else c # remove_parens cs)"
  by pat_completeness auto
termination
proof (relation "measure length")
  show "wf (measure length)" by simp
next
  fix c :: nat and cs :: pystr
  have "length (tl (dropWhile (\<lambda>x. x \<noteq> 41) cs)) \<le> length cs"
    using length_dropWhile_le [of "\<lambda>x. x \<noteq> 41" cs] by simp
  then show "(tl (dropWhile (\<lambda>x. x \<noteq> 41) cs), c # cs) \<in> measure length"
    by simp
next
  fix c :: nat and cs :: pystr
  show "(cs, c # cs) \<in> measure length" by simp
qed

text \<open>\<open>re.sub(r'\s+', ' ', s)\<close>: every maximal run of whitespace becomes one space.\<close>

function collapse_ws :: "pystr \<Rightarrow> pystr" where
  "collapse_ws [] = []"
| "collapse_ws (c # cs) =
     (if is_space c then 32 # collapse_ws (dropWhile is_space cs)
      else c # collapse_ws cs)"
  by pat_completeness auto
termination
proof (relation "measure length")
  show "wf (measure length)" by simp
next
  fix c :: nat and cs :: pystr
  show "(dropWhile is_space cs, c # cs) \<in> measure length"
    using length_dropWhile_le [of is_space cs] by simp
next
  fix c :: nat and cs :: pystr
  show "(cs, c # cs) \<in> measure length" by simp
qed

definition extract_book_title :: "pystr \<Rightarrow> pystr" where
  "extract_book_title book_info_line =
     (let title1 = remove_parens book_info_line;
          title2 = strip title1
      in collapse_ws title2)"

subsection \<open>The parser\<close>

text \<open>One highlight: the dictionary built for each kept chunk.\<close>

record highlight =
  book_info :: pystr
  metadata :: pystr
  highlight_text :: pystr

text \<open>
  \<open>books_highlights\<close>: a Python dictionary keeps its keys in insertion order, so the
  groups are an association list from titles to their highlights, in first-seen order.
\<close>

type_synonym groups = "(pystr \<times> highlight list) list"

text \<open>The separator between records, the line feed, and the date marker.\<close>

definition separator :: pystr where
  "separator = lit ''==========''"

definition newline :: pystr where
  "newline = [10]"

definition marker :: pystr where
  "marker = lit ''| Adicionado:''"

text \<open>
  The fields of a chunk that is already stripped. \<open>sublist m s\<close> is Python's
  \<open>m in s\<close>. \<open>split\<close> never returns an empty list; the source guards the read of
  the first line all the same.
\<close>

definition chunk_book_info :: "pystr \<Rightarrow> pystr" where
  "chunk_book_info highlight =
     (case split_str newline highlight of [] \<Rightarrow> [] | l # _ \<Rightarrow> l)"

definition trim_metadata :: "pystr \<Rightarrow> pystr" where
  "trim_metadata md =
     (if md \<noteq> [] \<and> sublist marker md then strip (hd (split_str marker md)) else md)"

definition chunk_metadata :: "pystr \<Rightarrow> pystr" where
  "chunk_metadata highlight =
     (let lines = split_str newline highlight
      in trim_metadata (if length lines > 1 then lines ! 1 else []))"

definition chunk_text :: "pystr \<Rightarrow> pystr" where
  "chunk_text highlight =
     (let lines = split_str newline highlight
      in if length lines > 2 then strip (join_str newline (drop 2 lines)) else [])"

text \<open>
  \<open>books_highlights[book_title].append(h)\<close>, after the key has been created with an
  empty list when it was absent.
\<close>

fun append_highlight :: "groups \<Rightarrow> pystr \<Rightarrow> highlight \<Rightarrow> groups" where
  "append_highlight [] title h = [(title, [h])]"
| "append_highlight ((k, hs) # rest) title h =
     (if k = title then (k, hs @ [h]) # rest
      else (k, hs) # append_highlight rest title h)"

text \<open>The body of the loop over the chunks.\<close>

definition process_chunk :: "groups \<Rightarrow> pystr \<Rightarrow> groups" where
  "process_chunk books chunk =
     (let highlight = strip chunk
      in if highlight = [] then books
         else if chunk_text highlight \<noteq> [] \<and> chunk_book_info highlight \<noteq> []
         then append_highlight books (extract_book_title (chunk_book_info highlight))
                \<lparr>book_info = chunk_book_info highlight,
                 metadata = chunk_metadata highlight,
                 highlight_text = chunk_text highlight\<rparr>
         else books)"

definition parse :: "pystr \<Rightarrow> groups" where
  "parse content = foldl process_chunk [] (split_str separator content)"

subsection \<open>The renderer\<close>

text \<open>
  A document is the sequence of the elements added to it: a heading with its level, a
  paragraph of one run with its italic flag, or a page break.
\<close>

datatype element = Heading nat pystr | Paragraph pystr bool | PageBreak

text \<open>The loop over \<open>enumerate(highlights, 1)\<close>; \<open>n\<close> is \<open>len(highlights)\<close>.\<close>

fun add_highlights :: "nat \<Rightarrow> nat \<Rightarrow> highlight list \<Rightarrow> element list" where
  "add_highlights i n [] = []"
| "add_highlights i n (h # hs) =
     [Heading 2 (lit ''Highlight '' @ str_of_nat i)]
     @ (if metadata h \<noteq> [] then [Paragraph (metadata h) True] else [])
     @ [Paragraph ([34] @ highlight_text h @ [34]) False]
     @ (if i < n then [Paragraph (replicate 30 45) False] else [])
     @ add_highlights (Suc i) n hs"

definition document_elements :: "pystr \<Rightarrow> pystr \<Rightarrow> highlight list \<Rightarrow> element list" where
  "document_elements timestamp book_title highlights =
     [Heading 0 (lit ''Kindle Highlights - '' @ book_title),
      Paragraph (lit ''Generated on: '' @ timestamp) False,
      Paragraph (replicate 50 61) False]
     @ add_highlights 1 (length highlights) highlights
     @ [PageBreak,
        Heading 1 (lit ''Summary''),
        Paragraph (lit ''Total highlights extracted: '' @ str_of_nat (length highlights)) False]"

definition doc_filename :: "pystr \<Rightarrow> pystr" where
  "doc_filename book_title = sanitize_filename book_title @ lit ''_Highlights.docx''"

text \<open>\<open>os.path.join(a, b)\<close> as \<open>posixpath\<close> computes it.\<close>

definition path_join :: "pystr \<Rightarrow> pystr \<Rightarrow> pystr" where
  "path_join a b =
     (if prefix [47] b then b
      else if a = [] \<or> last a = 47 then a @ b
      else a @ [47] @ b)"

subsection \<open>The world outside the program\<close>

text \<open>
  The exceptions that no handler of the program catches: an \<open>OSError\<close> of
  \<open>os.makedirs\<close> and a \<open>ValueError\<close> of the document library, each with its
  message.
\<close>

datatype exn = OSError pystr | ValueError pystr

datatype read_result = FileNotFound | ReadFailed pystr | FileContent pystr

text \<open>
  The world is a parameter of a run: which paths exist; whether \<open>os.makedirs\<close>
  raises for a path (and with what message); what reading the input file gives
  (\<open>FileNotFoundError\<close>, another exception with its message, or the content);
  whether the document library rejects a text for a reason other than a control
  character; whether saving a document at a path raises; and the formatted local time
  at which the document of a title is built.
\<close>

record env =
  path_exists :: "pystr \<Rightarrow> bool"
  makedirs_error :: "pystr \<Rightarrow> pystr option"
  read_file :: "pystr \<Rightarrow> read_result"
  text_error :: "pystr \<Rightarrow> pystr option"
  save_error :: "pystr \<Rightarrow> element list \<Rightarrow> pystr option"
  now :: "pystr \<Rightarrow> pystr"

text \<open>
  \<open>os.path.exists('')\<close> is false and \<open>os.makedirs('')\<close> raises
  \<open>FileNotFoundError\<close> (an \<open>OSError\<close>) in every world.
\<close>

definition exists_path :: "env \<Rightarrow> pystr \<Rightarrow> bool" where
  "exists_path e p = (p \<noteq> [] \<and> path_exists e p)"

definition makedirs :: "env \<Rightarrow> pystr \<Rightarrow> pystr option" where
  "makedirs e p =
     (if p = [] then Some (lit ''[Errno 2] No such file or directory: '' @ [39, 39])
      else makedirs_error e p)"

text \<open>
  The document library stores every text in XML and raises \<open>ValueError\<close> for a text
  with a control character other than TAB, LF and CR (which it turns into tabs and line
  breaks).
\<close>

definition is_control :: "nat \<Rightarrow> bool" where
  "is_control c = (c < 32 \<and> c \<noteq> 9 \<and> c \<noteq> 10 \<and> c \<noteq> 13)"

definition xml_message :: pystr where
  "xml_message = lit ''All strings must be XML compatible: Unicode or ASCII, no NULL bytes or control characters''"

definition docx_error :: "env \<Rightarrow> pystr \<Rightarrow> pystr option" where
  "docx_error e t = (if list_ex is_control t then Some xml_message else text_error e t)"

text \<open>
  The elements are added one after the other, so the first text that is rejected raises.
\<close>

fun first_error :: "env \<Rightarrow> element list \<Rightarrow> pystr option" where
  "first_error e [] = None"
| "first_error e (Heading level t # els) =
     (case docx_error e t of Some msg \<Rightarrow> Some msg | None \<Rightarrow> first_error e els)"
| "first_error e (Paragraph t italic # els) =
     (case docx_error e t of Some msg \<Rightarrow> Some msg | None \<Rightarrow> first_error e els)"
| "first_error e (PageBreak # els) = first_error e els"

text \<open>Lines 45 to 80 of the source: the document, or the exception of the library.\<close>

definition build_document :: "env \<Rightarrow> pystr \<Rightarrow> highlight list \<Rightarrow> exn + element list" where
  "build_document e book_title highlights =
     (let doc = document_elements (now e book_title) book_title highlights
      in case first_error e doc of
           Some msg \<Rightarrow> Inl (ValueError msg)
         | None \<Rightarrow> Inr doc)"

text \<open>
  What a run does to the world, in order: a directory created, a line printed, a
  document saved at a path.
\<close>

datatype event = MakeDirs pystr | Print pystr | Save pystr "element list"

text \<open>
  The renderer returns what it did and either the exception that escaped it or its
  boolean result. Only \<open>doc.save\<close> stands inside the \<open>try\<close>.
\<close>

definition create_book_document ::
    "env \<Rightarrow> pystr \<Rightarrow> highlight list \<Rightarrow> pystr \<Rightarrow> event list \<times> (exn + bool)" where
  "create_book_document e book_title highlights output_dir =
     (case build_document e book_title highlights of
        Inl x \<Rightarrow> ([], Inl x)
      | Inr doc \<Rightarrow>
          (let filename = doc_filename book_title;
               filepath = path_join output_dir filename
           in case save_error e filepath doc of
                None \<Rightarrow>
                  ([Save filepath doc,
                    Print ([10003] @ lit '' Document saved: '' @ filename @ lit '' (''
                           @ str_of_nat (length highlights) @ lit '' highlights)'')],
                   Inr True)
              | Some msg \<Rightarrow>
                  ([Print ([10007] @ lit '' Error saving '' @ filename @ lit '': '' @ msg)],
                   Inr False)))"

subsection \<open>The orchestrator\<close>

text \<open>
  The loop over \<open>books_highlights.items()\<close>, with its two counters
  \<open>successful_docs\<close> and \<open>total_highlights\<close>. An exception of the renderer ends
  the loop: the loop has no handler.
\<close>

fun render_books ::
    "env \<Rightarrow> pystr \<Rightarrow> groups \<Rightarrow> nat \<Rightarrow> nat \<Rightarrow> event list \<times> (exn + nat \<times> nat)" where
  "render_books e output_dir [] successful_docs total_highlights =
     ([], Inr (successful_docs, total_highlights))"
| "render_books e output_dir ((book_title, highlights) # rest) successful_docs total_highlights =
     (case create_book_document e book_title highlights output_dir of
        (ev, Inl x) \<Rightarrow> (ev, Inl x)
      | (ev, Inr ok) \<Rightarrow>
          (case render_books e output_dir rest
                  (if ok then successful_docs + 1 else successful_docs)
                  (if ok then total_highlights + length highlights else total_highlights) of
             (evs, r) \<Rightarrow> (ev @ evs, r)))"

text \<open>Lines 103 to 106: the directory is created when it does not exist.\<close>

definition make_output_dir :: "env \<Rightarrow> pystr \<Rightarrow> event list \<times> exn option" where
  "make_output_dir e output_dir =
     (if \<not> exists_path e output_dir
      then (case makedirs e output_dir of
              Some msg \<Rightarrow> ([], Some (OSError msg))
            | None \<Rightarrow>
                ([MakeDirs output_dir, Print (lit ''Created directory: '' @ output_dir)], None))
      else ([], None))"

definition summary :: "nat \<Rightarrow> nat \<Rightarrow> pystr \<Rightarrow> event list" where
  "summary successful_docs total_highlights output_dir =
     [Print (replicate 50 45),
      Print (lit ''Summary:''),
      Print ([8226, 32] @ str_of_nat successful_docs @ lit '' documents created successfully''),
      Print ([8226, 32] @ str_of_nat total_highlights @ lit '' total highlights processed''),
      Print ([8226, 32] @ lit ''Files saved in: '' @ output_dir @ [47])]"

text \<open>
  A run returns what it did and the exception that escaped it, if any (\<open>None\<close>: the
  function returned).
\<close>

definition extract_all_highlights :: "env \<Rightarrow> pystr \<Rightarrow> pystr \<Rightarrow> event list \<times> exn option" where
  "extract_all_highlights e input_file_path output_dir =
     (case make_output_dir e output_dir of
        (ev0, Some x) \<Rightarrow> (ev0, Some x)
      | (ev0, None) \<Rightarrow>
          (case read_file e input_file_path of
             FileNotFound \<Rightarrow>
               (ev0 @ [Print (lit ''Error: File '' @ [39] @ input_file_path @ [39]
                              @ lit '' not found.'')], None)
           | ReadFailed msg \<Rightarrow> (ev0 @ [Print (lit ''Error reading file: '' @ msg)], None)
           | FileContent content \<Rightarrow>
               (let books_highlights = parse content
                in if books_highlights = []
                   then (ev0 @ [Print (lit ''No highlights found.'')], None)
                   else (let found =
                               [Print ([10] @ lit ''Found ''
                                       @ str_of_nat (length books_highlights)
                                       @ lit '' books with highlights:''),
                                Print (replicate 50 45)]
                         in case render_books e output_dir books_highlights 0 0 of
                              (evs, Inl x) \<Rightarrow> (ev0 @ found @ evs, Some x)
                            | (evs, Inr (successful_docs, total_highlights)) \<Rightarrow>
                                (ev0 @ found @ evs
                                 @ summary successful_docs total_highlights output_dir,
                                 None)))))"

subsection \<open>Observations on a run\<close>

text \<open>The paths of the documents a run saved, in order.\<close>

fun saved_paths :: "event list \<Rightarrow> pystr list" where
  "saved_paths [] = []"
| "saved_paths (Save p d # evs) = p # saved_paths evs"
| "saved_paths (MakeDirs p # evs) = saved_paths evs"
| "saved_paths (Print m # evs) = saved_paths evs"

text \<open>
  Whether the document of a book can be built, and whether saving it succeeds, in the
  given world.
\<close>

definition build_ok :: "env \<Rightarrow> pystr \<times> highlight list \<Rightarrow> bool" where
  "build_ok e book =
     (case book of (book_title, highlights) \<Rightarrow>
        first_error e (document_elements (now e book_title) book_title highlights) = None)"

definition save_ok :: "env \<Rightarrow> pystr \<Rightarrow> pystr \<times> highlight list \<Rightarrow> bool" where
  "save_ok e output_dir book =
     (case book of (book_title, highlights) \<Rightarrow>
        save_error e (path_join output_dir (doc_filename book_title))
          (document_elements (now e book_title) book_title highlights) = None)"

text \<open>The number of records over all groups.\<close>

definition total_records :: "groups \<Rightarrow> nat" where
  "total_records books = sum_list (map (\<lambda>(title, hs). length hs) books)"

text \<open>
  The records of an input in the specification's words (sections 4.1 and 6): records
  are separated by a line of exactly ten equals signs. The content is cut into lines,
  the lines are grouped at the separator lines and each group is joined again; a record
  is a group that is not empty once stripped.
\<close>

fun group_lines :: "pystr list \<Rightarrow> pystr list \<Rightarrow> pystr list list" where
  "group_lines cur [] = [cur]"
| "group_lines cur (l # ls) =
     (if l = separator then cur # group_lines [] ls else group_lines (cur @ [l]) ls)"

definition spec_records :: "pystr \<Rightarrow> pystr list" where
  "spec_records content =
     filter (\<lambda>c. c \<noteq> [])
       (map (\<lambda>ls. strip (join_str newline ls)) (group_lines [] (split_str newline content)))"

subsection \<open>Auxiliary predicates\<close>

text \<open>
  No opening parenthesis of the string has a closing parenthesis after it: the regular
  expression of the title derivation finds nothing to remove.
\<close>

fun no_match :: "pystr \<Rightarrow> bool" where
  "no_match [] = True"
| "no_match (c # cs) = ((c \<noteq> 40 \<or> 41 \<notin> set cs) \<and> no_match cs)"

definition is_paren :: "nat \<Rightarrow> bool" where
  "is_paren c = (c = 40 \<or> c = 41)"

section \<open>Properties\<close>

subsection \<open>Evaluating the program on concrete inputs\<close>

lemmas eval_defs = lit_def strip_def is_space_def separator_def newline_def marker_def
  split_str_def chunk_book_info_def trim_metadata_def chunk_metadata_def chunk_text_def
  process_chunk_def parse_def extract_book_title_def sanitize_filename_def forbidden_def
  dots_def doc_filename_def sublist_code

lemmas run_defs = extract_all_highlights_def make_output_dir_def exists_path_def
  makedirs_def create_book_document_def build_document_def document_elements_def
  docx_error_def is_control_def path_join_def summary_def Let_def

subsection \<open>Splitting\<close>

lemma split_from_not_Nil: "split_from sep cur s \<noteq> []"
  by (induction sep cur s rule: split_from.induct) auto

lemma split_from_no_sep:
  "\<not> sublist sep s \<Longrightarrow> split_from sep cur s = [cur @ s]"
proof (induction s arbitrary: cur)
  case Nil
  then show ?case by simp
next
  case (Cons c cs)
  then have "\<not> prefix sep (c # cs)" and "\<not> sublist sep cs"
    by (auto simp: sublist_Cons_right)
  with Cons.IH [of "cur @ [c]"] show ?case by simp
qed

text \<open>
  The first piece of a split is what stands before the first occurrence of the
  separator, when there is one.
\<close>

lemma split_from_first:
  assumes "sep \<noteq> []" and "sublist sep s"
  shows "\<exists>pre post. s = pre @ sep @ post
           \<and> hd (split_from sep cur s) = cur @ pre
           \<and> (\<forall>pre' post'. s = pre' @ sep @ post' \<longrightarrow> length pre \<le> length pre')"
  using assms(2)
proof (induction s arbitrary: cur)
  case Nil
  with assms(1) show ?case by simp
next
  case (Cons c cs)
  show ?case
  proof (cases "prefix sep (c # cs)")
    case True
    then obtain post where "c # cs = sep @ post"
      by (auto simp: prefix_def)
    moreover from True assms(1) have "hd (split_from sep cur (c # cs)) = cur @ []"
      by simp
    ultimately show ?thesis
      by (intro exI [of _ "[]"] exI [of _ post]) simp
  next
    case False
    with Cons.prems have sub: "sublist sep cs"
      by (simp add: sublist_Cons_right)
    from Cons.IH [OF sub, of "cur @ [c]"] obtain pre post where
      eq: "cs = pre @ sep @ post" and
      h: "hd (split_from sep (cur @ [c]) cs) = (cur @ [c]) @ pre" and
      least: "\<forall>pre' post'. cs = pre' @ sep @ post' \<longrightarrow> length pre \<le> length pre'"
      by blast
    have "\<forall>pre' post'. c # cs = pre' @ sep @ post' \<longrightarrow> length (c # pre) \<le> length pre'"
    proof (intro allI impI)
      fix pre' post'
      assume e: "c # cs = pre' @ sep @ post'"
      show "length (c # pre) \<le> length pre'"
      proof (cases pre')
        case Nil
        with e have "prefix sep (c # cs)" by (simp add: prefix_def)
        with False show ?thesis by simp
      next
        case (Cons a as)
        with e have "cs = as @ sep @ post'" by simp
        with least have "length pre \<le> length as" by blast
        with Cons show ?thesis by simp
      qed
    qed
    with eq h False show ?thesis
      by (intro exI [of _ "c # pre"] exI [of _ post]) simp
  qed
qed

lemma marker_not_Nil: "marker \<noteq> []"
  by (simp add: marker_def lit_def)

subsection \<open>Stripping\<close>

lemma strip_Nil: "strip [] = []"
  by (simp add: strip_def)

lemma last_dropWhile: "dropWhile P xs \<noteq> [] \<Longrightarrow> last (dropWhile P xs) = last xs"
  by (induction xs) (auto split: if_splits)

lemma strip_ends:
  assumes "strip s \<noteq> []"
  shows "\<not> is_space (hd (strip s))" and "\<not> is_space (last (strip s))"
proof -
  let ?d = "dropWhile is_space s"
  let ?r = "dropWhile is_space (rev ?d)"
  from assms have r: "?r \<noteq> []" by (simp add: strip_def)
  then have d: "?d \<noteq> []" by (metis dropWhile.simps(1) rev.simps(1))
  have "last (strip s) = hd ?r"
    using r by (simp add: strip_def last_rev)
  with hd_dropWhile [OF r] show "\<not> is_space (last (strip s))" by simp
  have "hd (strip s) = last ?r"
    using r by (simp add: strip_def hd_rev)
  also have "\<dots> = last (rev ?d)" using r by (rule last_dropWhile)
  also have "\<dots> = hd ?d" using d by (simp add: last_rev)
  finally show "\<not> is_space (hd (strip s))" using hd_dropWhile [OF d] by simp
qed

lemma strip_id:
  assumes "s = [] \<or> (\<not> is_space (hd s) \<and> \<not> is_space (last s))"
  shows "strip s = s"
proof (cases "s = []")
  case True
  then show ?thesis by (simp add: strip_Nil)
next
  case False
  with assms have h: "\<not> is_space (hd s)" and l: "\<not> is_space (last s)" by auto
  from False h have 1: "dropWhile is_space s = s"
    by (simp add: dropWhile_eq_self_iff)
  from False l have 2: "dropWhile is_space (rev s) = rev s"
    by (simp add: dropWhile_eq_self_iff hd_rev)
  show ?thesis by (simp add: strip_def 1 2)
qed

lemma strip_idem: "strip (strip s) = strip s"
  using strip_ends [of s] by (intro strip_id) blast

lemma filter_dropWhile_other:
  "(\<And>c. Q c \<Longrightarrow> \<not> P c) \<Longrightarrow> filter Q (dropWhile P xs) = filter Q xs"
  by (induction xs) auto

lemma filter_strip:
  "(\<And>c. Q c \<Longrightarrow> \<not> is_space c) \<Longrightarrow> filter Q (strip s) = filter Q s"
  by (simp add: strip_def rev_filter [symmetric] filter_dropWhile_other)

lemma sublist_strip: "sublist (strip s) s"
proof -
  have "sublist (strip s) (dropWhile is_space s)"
    unfolding strip_def by (simp add: sublist_rev_left)
  moreover have "sublist (dropWhile is_space s) s" by simp
  ultimately show ?thesis by (rule sublist_order.order.trans)
qed

lemma length_strip_le: "length (strip s) \<le> length s"
  using sublist_strip by (rule sublist_length_le)

lemma set_strip: "set (strip s) \<subseteq> set s"
  using sublist_strip by (rule set_mono_sublist)

subsection \<open>Collapsing whitespace\<close>

lemma collapse_ws_hd:
  "s \<noteq> [] \<Longrightarrow> \<not> is_space (hd s) \<Longrightarrow> collapse_ws s \<noteq> [] \<and> hd (collapse_ws s) = hd s"
  by (cases s) auto

lemma is_space_32: "is_space 32"
  by (simp add: is_space_def)

lemma collapse_ws_last:
  "s \<noteq> [] \<Longrightarrow> \<not> is_space (last s) \<Longrightarrow> collapse_ws s \<noteq> [] \<and> last (collapse_ws s) = last s"
proof (induction s rule: collapse_ws.induct)
  case 1
  then show ?case by simp
next
  case (2 c cs)
  show ?case
  proof (cases "is_space c")
    case True
    with "2.prems" have cs: "cs \<noteq> []" and l: "\<not> is_space (last cs)" by (auto split: if_splits)
    then have d: "dropWhile is_space cs \<noteq> []"
      by (metis dropWhile_eq_Nil_conv last_in_set)
    then have "last (dropWhile is_space cs) = last cs" by (rule last_dropWhile)
    with "2.IH"(1) [OF True d] l cs True show ?thesis by simp
  next
    case False
    show ?thesis
    proof (cases "cs = []")
      case True
      with False show ?thesis by simp
    next
      case ne: False
      with "2.prems" have "\<not> is_space (last cs)" by simp
      with "2.IH"(2) [OF False ne] False ne show ?thesis by simp
    qed
  qed
qed

lemma collapse_ws_idem: "collapse_ws (collapse_ws s) = collapse_ws s"
proof (induction s rule: collapse_ws.induct)
  case 1
  then show ?case by simp
next
  case (2 c cs)
  show ?case
  proof (cases "is_space c")
    case True
    let ?u = "dropWhile is_space cs"
    have "dropWhile is_space (collapse_ws ?u) = collapse_ws ?u"
    proof (cases "?u = []")
      case True
      show ?thesis unfolding True by simp
    next
      case False
      then have "\<not> is_space (hd ?u)" by (rule hd_dropWhile)
      with False collapse_ws_hd [of ?u] show ?thesis
        by (simp add: dropWhile_eq_self_iff)
    qed
    with True "2.IH"(1) show ?thesis by (simp add: is_space_32)
  next
    case False
    with "2.IH"(2) show ?thesis by simp
  qed
qed

lemma filter_collapse_ws:
  assumes "\<And>c. Q c \<Longrightarrow> \<not> is_space c"
  shows "filter Q (collapse_ws s) = filter Q s"
proof (induction s rule: collapse_ws.induct)
  case 1
  then show ?case by simp
next
  case (2 c cs)
  show ?case
  proof (cases "is_space c")
    case True
    with assms have "\<not> Q c" and "\<not> Q 32" using is_space_32 by auto
    with True "2.IH"(1) show ?thesis
      by (simp add: filter_dropWhile_other [OF assms])
  next
    case False
    with "2.IH"(2) show ?thesis by simp
  qed
qed

subsection \<open>Removing parenthesised text\<close>

lemma set_remove_parens: "set (remove_parens s) \<subseteq> set s"
proof (induction s rule: remove_parens.induct)
  case 1
  then show ?case by simp
next
  case (2 c cs)
  have "set (tl xs) \<subseteq> set xs" for xs :: pystr
    by (cases xs) auto
  then have "set (tl (dropWhile (\<lambda>x. x \<noteq> 41) cs)) \<subseteq> set cs"
    using set_dropWhileD [of _ "\<lambda>x. x \<noteq> 41" cs] by blast
  with 2 show ?case by auto
qed

lemma no_match_remove_parens: "no_match (remove_parens s)"
proof (induction s rule: remove_parens.induct)
  case 1
  then show ?case by simp
next
  case (2 c cs)
  then show ?case using set_remove_parens [of cs] by auto
qed

lemma remove_parens_id: "no_match s \<Longrightarrow> remove_parens s = s"
  by (induction s) auto

lemma no_match_filter: "no_match (filter is_paren s) = no_match s"
  by (induction s) (auto simp: is_paren_def)

lemma is_paren_not_space: "is_paren c \<Longrightarrow> \<not> is_space c"
  by (auto simp: is_paren_def is_space_def)

subsection \<open>Removing the dots and sanitizing\<close>

lemma set_replace_str_del: "set (replace_str old [] s) \<subseteq> set s"
proof (induction old "[] :: 'a list" s rule: replace_str.induct)
  case (1 old)
  then show ?case by simp
next
  case (2 old c cs)
  have "set (drop (length old) (c # cs)) \<subseteq> set (c # cs)"
    by (rule set_drop_subset)
  with 2 show ?case by (auto split: if_splits)
qed

lemma replace_str_id: "\<not> sublist old s \<Longrightarrow> replace_str old new s = s"
  by (induction s) (auto simp: sublist_Cons_right)

lemma replace_dots_prefix2:
  assumes p: "prefix [46, 46] (replace_str dots [] s)"
  shows "prefix [46, 46] s"
proof (cases s)
  case Nil
  with p show ?thesis by simp
next
  case (Cons a as)
  show ?thesis
  proof (cases as)
    case Nil
    with Cons p show ?thesis by (simp add: dots_def)
  next
    case inner: (Cons b bs)
    with Cons p show ?thesis
      by (cases bs) (auto simp: dots_def split: if_splits)
  qed
qed

lemma no_dots_replace: "\<not> sublist dots (replace_str dots [] s)"
proof (induction dots "[] :: pystr" s rule: replace_str.induct)
  case 1
  then show ?case by (simp add: dots_def)
next
  case (2 c cs)
  show ?case
  proof (cases "prefix dots (c # cs)")
    case True
    with "2.hyps"(1) show ?thesis by (simp add: dots_def)
  next
    case False
    then have ih: "\<not> sublist dots (replace_str dots [] cs)"
      using "2.hyps"(2) by simp
    have "\<not> prefix dots (c # replace_str dots [] cs)"
    proof
      assume "prefix dots (c # replace_str dots [] cs)"
      then have "c = 46" and "prefix [46, 46] (replace_str dots [] cs)"
        by (simp_all add: dots_def)
      with replace_dots_prefix2 [of cs] have "prefix dots (c # cs)"
        by (simp add: dots_def)
      with False show False by simp
    qed
    with ih False show ?thesis by (simp add: sublist_Cons_right)
  qed
qed

lemma sublist_trans: "sublist xs ys \<Longrightarrow> sublist ys zs \<Longrightarrow> sublist xs zs"
  by (rule sublist_order.order.trans)

lemma sanitize_alt:
  "sanitize_filename s = take 100 (strip (replace_str dots [] (filter (\<lambda>c. c \<notin> set forbidden) s)))"
  by (simp add: sanitize_filename_def Let_def)

lemma sanitize_sublist:
  "sublist (sanitize_filename s) (replace_str dots [] (filter (\<lambda>c. c \<notin> set forbidden) s))"
  unfolding sanitize_alt
  by (rule sublist_trans [OF sublist_take sublist_strip])

lemma sanitize_no_forbidden: "set (sanitize_filename s) \<inter> set forbidden = {}"
proof -
  let ?f = "filter (\<lambda>c. c \<notin> set forbidden) s"
  have a: "set (sanitize_filename s) \<subseteq> set (replace_str dots [] ?f)"
    by (rule set_mono_sublist [OF sanitize_sublist])
  have b: "set (replace_str dots [] ?f) \<subseteq> set ?f"
    by (rule set_replace_str_del)
  have "x \<notin> set forbidden" if "x \<in> set (sanitize_filename s)" for x
  proof -
    from that a b have "x \<in> set ?f" by blast
    then show ?thesis by simp
  qed
  then show ?thesis by blast
qed

lemma sanitize_length: "length (sanitize_filename s) \<le> 100"
  by (simp add: sanitize_alt)

lemma sanitize_again: "sanitize_filename (sanitize_filename s) = strip (sanitize_filename s)"
proof -
  let ?t = "sanitize_filename s"
  have 1: "filter (\<lambda>c. c \<notin> set forbidden) ?t = ?t"
    using sanitize_no_forbidden [of s] by (intro filter_True) auto
  have "\<not> sublist dots ?t"
    using sanitize_sublist [of s] no_dots_replace sublist_trans by blast
  then have 2: "replace_str dots [] ?t = ?t" by (rule replace_str_id)
  have "length (strip ?t) \<le> 100"
    using length_strip_le [of ?t] sanitize_length [of s] by simp
  then show ?thesis
    by (simp add: sanitize_alt [of ?t] 1 2)
qed

subsection \<open>Rendering\<close>

lemma list_ex_replicate: "list_ex P (replicate n x) = (0 < n \<and> P x)"
  by (induction n) auto

lemma saved_paths_append: "saved_paths (xs @ ys) = saved_paths xs @ saved_paths ys"
  by (induction xs rule: saved_paths.induct) auto

lemma saved_paths_summary: "saved_paths (summary n m out) = []"
  by (simp add: summary_def)

lemma saved_paths_make_output_dir: "saved_paths (fst (make_output_dir e out)) = []"
  by (simp add: make_output_dir_def split: option.splits)

lemma build_document_ok:
  "build_ok e (t, hs) \<Longrightarrow>
     build_document e t hs = Inr (document_elements (now e t) t hs)"
  by (simp add: build_ok_def build_document_def Let_def)

lemma create_book_document_saved:
  "build_ok e (t, hs) \<Longrightarrow> save_ok e out (t, hs) \<Longrightarrow>
     snd (create_book_document e t hs out) = Inr True \<and>
     saved_paths (fst (create_book_document e t hs out)) = [path_join out (doc_filename t)]"
  by (simp add: build_document_ok save_ok_def create_book_document_def Let_def)

lemma create_book_document_failed:
  "build_ok e (t, hs) \<Longrightarrow> \<not> save_ok e out (t, hs) \<Longrightarrow>
     snd (create_book_document e t hs out) = Inr False \<and>
     saved_paths (fst (create_book_document e t hs out)) = []"
  by (auto simp: build_document_ok save_ok_def create_book_document_def Let_def)

lemma create_book_document_built:
  "build_ok e (t, hs) \<Longrightarrow>
     snd (create_book_document e t hs out) = Inr (save_ok e out (t, hs))"
  using create_book_document_saved [of e t hs out] create_book_document_failed [of e t hs out]
  by (cases "save_ok e out (t, hs)") simp_all

lemma render_books_built:
  "list_all (build_ok e) books \<Longrightarrow>
     render_books e out books n m =
       (concat (map (\<lambda>(t, hs). fst (create_book_document e t hs out)) books),
        Inr (n + length (filter (save_ok e out) books),
             m + sum_list (map (\<lambda>(t, hs). length hs) (filter (save_ok e out) books))))"
proof (induction books arbitrary: n m)
  case Nil
  then show ?case by simp
next
  case (Cons b bs)
  obtain t hs where b: "b = (t, hs)" by (cases b)
  from Cons.prems b have ok: "build_ok e (t, hs)" and rest: "list_all (build_ok e) bs"
    by simp_all
  obtain ev where c: "create_book_document e t hs out = (ev, Inr (save_ok e out (t, hs)))"
    using create_book_document_built [OF ok, of out]
    by (cases "create_book_document e t hs out") simp
  show ?case
    by (simp add: b c Cons.IH [OF rest])
qed

lemma saved_paths_concat:
  "list_all (build_ok e) books \<Longrightarrow>
     saved_paths (concat (map (\<lambda>(t, hs). fst (create_book_document e t hs out)) books)) =
       map (\<lambda>(t, hs). path_join out (doc_filename t)) (filter (save_ok e out) books)"
proof (induction books)
  case Nil
  then show ?case by simp
next
  case (Cons b bs)
  obtain t hs where b: "b = (t, hs)" by (cases b)
  from Cons.prems b have ok: "build_ok e (t, hs)" and rest: "list_all (build_ok e) bs"
    by simp_all
  show ?case
    using create_book_document_saved [OF ok, of out] create_book_document_failed [OF ok, of out]
    by (simp add: b saved_paths_append Cons.IH [OF rest])
qed

section \<open>The claims\<close>

text \<open>
  Claim C1, as amended. A chunk of exactly two lines (book info, then what was meant as
  the highlight text) is not kept: its second line is read as the metadata, its
  highlight text is empty and the loop body leaves the groups as they were.
\<close>

theorem two_line_chunk_is_discarded:
  assumes "length (split_str newline (strip chunk)) = 2"
  shows "chunk_metadata (strip chunk) = trim_metadata (split_str newline (strip chunk) ! 1)
         \<and> chunk_text (strip chunk) = []
         \<and> process_chunk books chunk = books"
  using assms by (simp add: chunk_metadata_def chunk_text_def process_chunk_def Let_def)

text \<open>The theorem at the chunk "Book A", "Hello".\<close>

theorem two_line_chunk_is_discarded_witness:
  "length (split_str newline (strip (lit ''Book A\<newline>Hello''))) = 2
   \<and> chunk_metadata (strip (lit ''Book A\<newline>Hello'')) = lit ''Hello''
   \<and> chunk_text (strip (lit ''Book A\<newline>Hello'')) = []
   \<and> process_chunk [] (lit ''Book A\<newline>Hello'') = []"
proof -
  have l: "length (split_str newline (strip (lit ''Book A\<newline>Hello''))) = 2"
    by (simp add: eval_defs)
  have m: "trim_metadata (split_str newline (strip (lit ''Book A\<newline>Hello'')) ! 1) = lit ''Hello''"
    by (simp add: eval_defs)
  from two_line_chunk_is_discarded [OF l, of "[]"] l m show ?thesis by simp
qed

text \<open>
  The claim as first stated fails there: the two-line chunk has a book-info line, and
  parsing it keeps no record.
\<close>

theorem two_line_chunk_counterexample:
  "length (split_str newline (strip (lit ''Book A\<newline>Hello''))) = 2
   \<and> chunk_book_info (strip (lit ''Book A\<newline>Hello'')) = lit ''Book A''
   \<and> parse (lit ''Book A\<newline>Hello'') = []"
  by (simp add: eval_defs)

text \<open>
  Claim C2. The content is split at every occurrence of ten equals signs, also inside a
  line: in this input no line is the separator line, yet the input is split in two, the
  highlight text is cut at the run and the rest of it is lost.
\<close>

theorem inline_separator_splits_a_record:
  "separator \<notin> set (split_str newline (lit ''Book A\<newline>Page 1\<newline>x==========y''))
   \<and> split_str separator (lit ''Book A\<newline>Page 1\<newline>x==========y'') =
       [lit ''Book A\<newline>Page 1\<newline>x'', lit ''y'']
   \<and> parse (lit ''Book A\<newline>Page 1\<newline>x==========y'') =
       [(lit ''Book A'', [\<lparr>book_info = lit ''Book A'', metadata = lit ''Page 1'',
                            highlight_text = lit ''x''\<rparr>])]"
  by (simp add: eval_defs)




text \<open>
  Claim C4, as amended. A sanitized name has none of the forbidden characters and at
  most 100 characters. Sanitizing it again only strips it, so it is unchanged whenever
  the stripped name was not truncated (it had at most 100 characters).
\<close>

theorem sanitize_properties:
  "set (sanitize_filename s) \<inter> set forbidden = {}
   \<and> length (sanitize_filename s) \<le> 100
   \<and> sanitize_filename (sanitize_filename s) = strip (sanitize_filename s)
   \<and> (length (strip (replace_str dots [] (filter (\<lambda>c. c \<notin> set forbidden) s))) \<le> 100 \<longrightarrow>
        sanitize_filename (sanitize_filename s) = sanitize_filename s)"
proof (intro conjI impI)
  assume "length (strip (replace_str dots [] (filter (\<lambda>c. c \<notin> set forbidden) s))) \<le> 100"
  then have "sanitize_filename s = strip (replace_str dots [] (filter (\<lambda>c. c \<notin> set forbidden) s))"
    by (simp add: sanitize_alt)
  then have "strip (sanitize_filename s) = sanitize_filename s"
    by (metis strip_idem)
  then show "sanitize_filename (sanitize_filename s) = sanitize_filename s"
    by (simp add: sanitize_again)
qed (rule sanitize_no_forbidden sanitize_length sanitize_again)+

text \<open>The theorem at a short name with forbidden characters, dots and blanks.\<close>

theorem sanitize_properties_witness:
  "length (strip (replace_str dots [] (filter (\<lambda>c. c \<notin> set forbidden)
      (lit '' What: a book...? '')))) \<le> 100
   \<and> sanitize_filename (lit '' What: a book...? '') = lit ''What a book''
   \<and> sanitize_filename (sanitize_filename (lit '' What: a book...? '')) = lit ''What a book''"
proof -
  have h: "length (strip (replace_str dots [] (filter (\<lambda>c. c \<notin> set forbidden)
      (lit '' What: a book...? '')))) \<le> 100"
    by (simp add: eval_defs)
  have v: "sanitize_filename (lit '' What: a book...? '') = lit ''What a book''"
    by (simp add: eval_defs)
  from sanitize_properties [of "lit '' What: a book...? ''"] h
  have "sanitize_filename (sanitize_filename (lit '' What: a book...? '')) =
        sanitize_filename (lit '' What: a book...? '')"
    by blast
  then have "sanitize_filename (sanitize_filename (lit '' What: a book...? '')) =
        lit ''What a book''"
    using v by (rule trans)
  with h v show ?thesis by blast
qed

text \<open>
  Idempotence fails after a truncation: a name of 99 letters, a blank and a letter is cut
  after the blank, and the second pass strips the blank.
\<close>

theorem truncation_breaks_idempotence:
  "sanitize_filename (sanitize_filename (lit ''aaaaaaaaaaaaaaaaaaaaaaaaaaaaaaaaaaaaaaaaaaaaaaaaaaaaaaaaaaaaaaaaaaaaaaaaaaaaaaaaaaaaaaaaaaaaaaaaaaa b''))
   \<noteq> sanitize_filename (lit ''aaaaaaaaaaaaaaaaaaaaaaaaaaaaaaaaaaaaaaaaaaaaaaaaaaaaaaaaaaaaaaaaaaaaaaaaaaaaaaaaaaaaaaaaaaaaaaaaaaa b'')"
  by (simp add: eval_defs)

text \<open>
  Claim C5, as amended. A failed save is recovered: when the documents of all books can
  be built, the loop calls the renderer for every book, whatever the earlier saves did,
  and the two counters count the books whose save succeeded; a failed save returns
  false and saves nothing; and a run whose output directory is in place returns
  normally, having saved the documents of all books whose save succeeds and printed the
  summary from these counts.
\<close>

theorem failed_save_is_recovered:
  "(list_all (build_ok e) books \<longrightarrow>
      render_books e out books n m =
        (concat (map (\<lambda>(t, hs). fst (create_book_document e t hs out)) books),
         Inr (n + length (filter (save_ok e out) books),
              m + sum_list (map (\<lambda>(t, hs). length hs) (filter (save_ok e out) books)))))
   \<and> (build_ok e (t, hs) \<and> \<not> save_ok e out (t, hs) \<longrightarrow>
        snd (create_book_document e t hs out) = Inr False
        \<and> saved_paths (fst (create_book_document e t hs out)) = [])
   \<and> (read_file e inp = FileContent content \<and> snd (make_output_dir e out) = None
        \<and> list_all (build_ok e) (parse content) \<longrightarrow>
        snd (extract_all_highlights e inp out) = None
        \<and> saved_paths (fst (extract_all_highlights e inp out)) =
            map (\<lambda>(t, hs). path_join out (doc_filename t))
              (filter (save_ok e out) (parse content))
        \<and> (parse content \<noteq> [] \<longrightarrow>
             (\<exists>evs. fst (extract_all_highlights e inp out) =
                evs @ summary (length (filter (save_ok e out) (parse content)))
                        (sum_list (map (\<lambda>(t, hs). length hs)
                                     (filter (save_ok e out) (parse content)))) out)))"
proof (intro conjI impI)
  assume "list_all (build_ok e) books"
  then show "render_books e out books n m =
        (concat (map (\<lambda>(t, hs). fst (create_book_document e t hs out)) books),
         Inr (n + length (filter (save_ok e out) books),
              m + sum_list (map (\<lambda>(t, hs). length hs) (filter (save_ok e out) books))))"
    by (rule render_books_built)
next
  assume "build_ok e (t, hs) \<and> \<not> save_ok e out (t, hs)"
  then show "snd (create_book_document e t hs out) = Inr False"
    and "saved_paths (fst (create_book_document e t hs out)) = []"
    by (simp_all add: create_book_document_failed)
next
  assume a: "read_file e inp = FileContent content \<and> snd (make_output_dir e out) = None
        \<and> list_all (build_ok e) (parse content)"
  then obtain ev0 where d: "make_output_dir e out = (ev0, None)"
    by (cases "make_output_dir e out") auto
  from saved_paths_make_output_dir [of e out] d have s0: "saved_paths ev0 = []" by simp
  from a have r: "read_file e inp = FileContent content"
    and b: "list_all (build_ok e) (parse content)" by simp_all
  note rb = render_books_built [OF b, of out 0 0]
  show "snd (extract_all_highlights e inp out) = None"
    by (simp add: extract_all_highlights_def d r rb Let_def)
  show "saved_paths (fst (extract_all_highlights e inp out)) =
            map (\<lambda>(t, hs). path_join out (doc_filename t))
              (filter (save_ok e out) (parse content))"
    by (simp add: extract_all_highlights_def d r rb Let_def saved_paths_append s0
        saved_paths_summary saved_paths_concat [OF b])
  assume ne: "parse content \<noteq> []"
  show "\<exists>evs. fst (extract_all_highlights e inp out) =
          evs @ summary (length (filter (save_ok e out) (parse content)))
                  (sum_list (map (\<lambda>(t, hs). length hs)
                               (filter (save_ok e out) (parse content)))) out"
    by (rule exI [of _ "ev0 @
            [Print ([10] @ lit ''Found '' @ str_of_nat (length (parse content))
                    @ lit '' books with highlights:''),
             Print (replicate 50 45)]
            @ concat (map (\<lambda>(t, hs). fst (create_book_document e t hs out)) (parse content))"])
       (simp add: extract_all_highlights_def d r ne rb Let_def)
qed

text \<open>The theorem in a world where saving the first of two books fails.\<close>

theorem failed_save_is_recovered_witness:
  "list_all (build_ok
       \<lparr>path_exists = \<lambda>p. True, makedirs_error = \<lambda>p. None,
        read_file = \<lambda>p. FileContent (lit ''A\<newline>Page 1\<newline>x\<newline>==========\<newline>B\<newline>Page 2\<newline>y''),
        text_error = \<lambda>t. None,
        save_error = \<lambda>p d. if p = lit ''out/A_Highlights.docx'' then Some (lit ''disk full'') else None,
        now = \<lambda>t. lit ''01/01/2024 at 10:00''\<rparr>)
     (parse (lit ''A\<newline>Page 1\<newline>x\<newline>==========\<newline>B\<newline>Page 2\<newline>y''))
   \<and> \<not> save_ok
       \<lparr>path_exists = \<lambda>p. True, makedirs_error = \<lambda>p. None,
        read_file = \<lambda>p. FileContent (lit ''A\<newline>Page 1\<newline>x\<newline>==========\<newline>B\<newline>Page 2\<newline>y''),
        text_error = \<lambda>t. None,
        save_error = \<lambda>p d. if p = lit ''out/A_Highlights.docx'' then Some (lit ''disk full'') else None,
        now = \<lambda>t. lit ''01/01/2024 at 10:00''\<rparr>
       (lit ''out'')
       (lit ''A'', [\<lparr>book_info = lit ''A'', metadata = lit ''Page 1'', highlight_text = lit ''x''\<rparr>])
   \<and> extract_all_highlights
       \<lparr>path_exists = \<lambda>p. True, makedirs_error = \<lambda>p. None,
        read_file = \<lambda>p. FileContent (lit ''A\<newline>Page 1\<newline>x\<newline>==========\<newline>B\<newline>Page 2\<newline>y''),
        text_error = \<lambda>t. None,
        save_error = \<lambda>p d. if p = lit ''out/A_Highlights.docx'' then Some (lit ''disk full'') else None,
        now = \<lambda>t. lit ''01/01/2024 at 10:00''\<rparr>
       (lit ''in'') (lit ''out'') =
       (fst (extract_all_highlights
       \<lparr>path_exists = \<lambda>p. True, makedirs_error = \<lambda>p. None,
        read_file = \<lambda>p. FileContent (lit ''A\<newline>Page 1\<newline>x\<newline>==========\<newline>B\<newline>Page 2\<newline>y''),
        text_error = \<lambda>t. None,
        save_error = \<lambda>p d. if p = lit ''out/A_Highlights.docx'' then Some (lit ''disk full'') else None,
        now = \<lambda>t. lit ''01/01/2024 at 10:00''\<rparr>
       (lit ''in'') (lit ''out'')), None)
   \<and> saved_paths (fst (extract_all_highlights
       \<lparr>path_exists = \<lambda>p. True, makedirs_error = \<lambda>p. None,
        read_file = \<lambda>p. FileContent (lit ''A\<newline>Page 1\<newline>x\<newline>==========\<newline>B\<newline>Page 2\<newline>y''),
        text_error = \<lambda>t. None,
        save_error = \<lambda>p d. if p = lit ''out/A_Highlights.docx'' then Some (lit ''disk full'') else None,
        now = \<lambda>t. lit ''01/01/2024 at 10:00''\<rparr>
       (lit ''in'') (lit ''out''))) = [lit ''out/B_Highlights.docx'']
   \<and> snd (render_books
       \<lparr>path_exists = \<lambda>p. True, makedirs_error = \<lambda>p. None,
        read_file = \<lambda>p. FileContent (lit ''A\<newline>Page 1\<newline>x\<newline>==========\<newline>B\<newline>Page 2\<newline>y''),
        text_error = \<lambda>t. None,
        save_error = \<lambda>p d. if p = lit ''out/A_Highlights.docx'' then Some (lit ''disk full'') else None,
        now = \<lambda>t. lit ''01/01/2024 at 10:00''\<rparr>
       (lit ''out'')
       (parse (lit ''A\<newline>Page 1\<newline>x\<newline>==========\<newline>B\<newline>Page 2\<newline>y'')) 0 0)
     = Inr (1, 1)"
proof -
  define content where
    "content = lit ''A\<newline>Page 1\<newline>x\<newline>==========\<newline>B\<newline>Page 2\<newline>y''"
  define e where
    "e = \<lparr>path_exists = \<lambda>p. True, makedirs_error = \<lambda>p. None,
          read_file = \<lambda>p. FileContent content,
          text_error = \<lambda>t. None,
          save_error = \<lambda>p d. if p = lit ''out/A_Highlights.docx'' then Some (lit ''disk full'') else None,
          now = \<lambda>t. lit ''01/01/2024 at 10:00''\<rparr>"
  define hA where
    "hA = \<lparr>book_info = lit ''A'', metadata = lit ''Page 1'', highlight_text = lit ''x''\<rparr>"
  define hB where
    "hB = \<lparr>book_info = lit ''B'', metadata = lit ''Page 2'', highlight_text = lit ''y''\<rparr>"
  have p: "parse content = [(lit ''A'', [hA]), (lit ''B'', [hB])]"
    by (simp add: content_def hA_def hB_def eval_defs)
  have bA: "build_ok e (lit ''A'', [hA])"
    by (simp add: build_ok_def e_def hA_def document_elements_def docx_error_def
        is_control_def lit_def str_of_nat.simps list_ex_replicate)
  have bB: "build_ok e (lit ''B'', [hB])"
    by (simp add: build_ok_def e_def hB_def document_elements_def docx_error_def
        is_control_def lit_def str_of_nat.simps list_ex_replicate)
  from bA bB have b: "list_all (build_ok e) (parse content)"
    by (simp add: p)
  have a: "\<not> save_ok e (lit ''out'') (lit ''A'', [hA])"
    by (simp add: save_ok_def e_def eval_defs path_join_def)
  have s: "save_ok e (lit ''out'') (lit ''B'', [hB])"
    by (simp add: save_ok_def e_def eval_defs path_join_def)
  have r: "read_file e (lit ''in'') = FileContent content"
    by (simp add: e_def)
  have d: "snd (make_output_dir e (lit ''out'')) = None"
    by (simp add: make_output_dir_def exists_path_def e_def lit_def)
  have pj: "path_join (lit ''out'') (doc_filename (lit ''B'')) = lit ''out/B_Highlights.docx''"
    by (simp add: eval_defs path_join_def)
  have f: "filter (save_ok e (lit ''out'')) (parse content) = [(lit ''B'', [hB])]"
    using a s by (simp add: p)
  note inst = failed_save_is_recovered
    [of e "parse content" "lit ''out''" 0 0 "lit ''A''" "[hA]" "lit ''in''" content]
  from inst b have "render_books e (lit ''out'') (parse content) 0 0 =
     (concat (map (\<lambda>(t, hs). fst (create_book_document e t hs (lit ''out''))) (parse content)),
      Inr (0 + length (filter (save_ok e (lit ''out'')) (parse content)),
           0 + sum_list (map (\<lambda>(t, hs). length hs) (filter (save_ok e (lit ''out'')) (parse content)))))"
    by blast
  then have c: "snd (render_books e (lit ''out'') (parse content) 0 0) = Inr (1, 1)"
    by (simp add: f hB_def)
  from inst r d b have n: "snd (extract_all_highlights e (lit ''in'') (lit ''out'')) = None"
    and "saved_paths (fst (extract_all_highlights e (lit ''in'') (lit ''out''))) =
      map (\<lambda>(t, hs). path_join (lit ''out'') (doc_filename t))
        (filter (save_ok e (lit ''out'')) (parse content))"
    by blast+
  then have sp: "saved_paths (fst (extract_all_highlights e (lit ''in'') (lit ''out''))) =
      [lit ''out/B_Highlights.docx'']"
    by (simp only: f list.map prod.case pj)
  from n have w: "extract_all_highlights e (lit ''in'') (lit ''out'') =
      (fst (extract_all_highlights e (lit ''in'') (lit ''out'')), None)"
    by (cases "extract_all_highlights e (lit ''in'') (lit ''out'')") simp
  from a b c sp w show ?thesis
    unfolding e_def content_def hA_def by blast
qed

text \<open>
  The claim as first stated fails when a document cannot be built: the building calls
  stand outside the \<open>try\<close>. A form feed inside the highlight of the first book makes
  the library raise; the exception leaves the run and the second book is never
  rendered.
\<close>

theorem rejected_text_aborts_the_batch:
  "parse (lit ''A\<newline>Page 1\<newline>x'' @ [12] @ lit ''y\<newline>==========\<newline>B\<newline>Page 2\<newline>z'') =
     [(lit ''A'', [\<lparr>book_info = lit ''A'', metadata = lit ''Page 1'',
                    highlight_text = lit ''x'' @ [12] @ lit ''y''\<rparr>]),
      (lit ''B'', [\<lparr>book_info = lit ''B'', metadata = lit ''Page 2'',
                    highlight_text = lit ''z''\<rparr>])]
   \<and> snd (extract_all_highlights
        \<lparr>path_exists = \<lambda>p. True, makedirs_error = \<lambda>p. None,
         read_file = \<lambda>p. FileContent
           (lit ''A\<newline>Page 1\<newline>x'' @ [12] @ lit ''y\<newline>==========\<newline>B\<newline>Page 2\<newline>z''),
         text_error = \<lambda>t. None, save_error = \<lambda>p d. None,
         now = \<lambda>t. lit ''01/01/2024 at 10:00''\<rparr>
        (lit ''My Clippings.txt'') (lit ''highlights'')) = Some (ValueError xml_message)
   \<and> saved_paths (fst (extract_all_highlights
        \<lparr>path_exists = \<lambda>p. True, makedirs_error = \<lambda>p. None,
         read_file = \<lambda>p. FileContent
           (lit ''A\<newline>Page 1\<newline>x'' @ [12] @ lit ''y\<newline>==========\<newline>B\<newline>Page 2\<newline>z''),
         text_error = \<lambda>t. None, save_error = \<lambda>p d. None,
         now = \<lambda>t. lit ''01/01/2024 at 10:00''\<rparr>
        (lit ''My Clippings.txt'') (lit ''highlights''))) = []"
  by (simp add: eval_defs run_defs str_of_nat.simps list_ex_replicate)

text \<open>
  Claim C6: the two records of the scenario, whose book-info lines differ by the author
  annotation only, end up in one group titled "Book A", in source order.
\<close>

theorem scenario_two_records_one_group:
  "parse (lit ''Book A (Author)\<newline>Page 1\<newline>Hello\<newline>==========\<newline>Book A\<newline>Page 2\<newline>World\<newline>=========='') =
     [(lit ''Book A'',
       [\<lparr>book_info = lit ''Book A (Author)'', metadata = lit ''Page 1'',
         highlight_text = lit ''Hello''\<rparr>,
        \<lparr>book_info = lit ''Book A'', metadata = lit ''Page 2'',
         highlight_text = lit ''World''\<rparr>])]"
  by (simp add: eval_defs)

text \<open>
  Claim C7. This input holds one record, as no line of it is the separator line, and
  neither the book info nor the text of that record is empty; the parser cuts it at the
  run of equals signs inside the text and counts two records.
\<close>

theorem inline_separator_miscounts_records:
  "spec_records (lit ''A\<newline>P\<newline>x==========B\<newline>Q\<newline>y'') =
     [lit ''A\<newline>P\<newline>x==========B\<newline>Q\<newline>y'']
   \<and> chunk_book_info (lit ''A\<newline>P\<newline>x==========B\<newline>Q\<newline>y'') = lit ''A''
   \<and> chunk_text (lit ''A\<newline>P\<newline>x==========B\<newline>Q\<newline>y'') = lit ''x==========B\<newline>Q\<newline>y''
   \<and> total_records (parse (lit ''A\<newline>P\<newline>x==========B\<newline>Q\<newline>y'')) = 2"
  by (simp add: eval_defs spec_records_def total_records_def)

text \<open>
  Claim C8: deriving a title from a derived title gives the same title.
\<close>

theorem title_idempotent:
  "extract_book_title (extract_book_title s) = extract_book_title s"
proof -
  let ?r = "remove_parens s"
  let ?t = "collapse_ws (strip ?r)"
  have "filter is_paren ?t = filter is_paren ?r"
    by (simp add: filter_collapse_ws filter_strip is_paren_not_space)
  then have "no_match ?t"
    using no_match_filter [of ?t] no_match_filter [of ?r] no_match_remove_parens [of s] by simp
  then have 1: "remove_parens ?t = ?t" by (rule remove_parens_id)
  have 2: "strip ?t = ?t"
  proof (cases "strip ?r = []")
    case True
    then show ?thesis by (simp add: strip_Nil)
  next
    case False
    with strip_ends [of ?r] collapse_ws_hd [of "strip ?r"] collapse_ws_last [of "strip ?r"]
    show ?thesis by (intro strip_id) simp
  qed
  have 3: "collapse_ws ?t = ?t" by (rule collapse_ws_idem)
  show ?thesis by (simp add: extract_book_title_def Let_def 1 2 3)
qed

text \<open>
  Claim C9: a metadata line with the marker is cut before the first occurrence of the
  marker and stripped; a line without the marker is unchanged; and the two examples of
  the specification.
\<close>

theorem metadata_trimming:
  "(sublist marker md \<longrightarrow>
      (\<exists>pre post. md = pre @ marker @ post
         \<and> (\<forall>pre' post'. md = pre' @ marker @ post' \<longrightarrow> length pre \<le> length pre')
         \<and> trim_metadata md = strip pre))
   \<and> (\<not> sublist marker md \<longrightarrow> trim_metadata md = md)
   \<and> trim_metadata (lit ''Page 12 | Adicionado: 2024-01-01'') = lit ''Page 12''
   \<and> trim_metadata (lit ''Page 12'') = lit ''Page 12''"
proof (intro conjI impI)
  assume sub: "sublist marker md"
  with marker_not_Nil have ne: "md \<noteq> []" by auto
  from split_from_first [OF marker_not_Nil sub, of "[]"] obtain pre post where
    "md = pre @ marker @ post"
    "hd (split_from marker [] md) = pre"
    "\<forall>pre' post'. md = pre' @ marker @ post' \<longrightarrow> length pre \<le> length pre'"
    by auto
  with sub ne show "\<exists>pre post. md = pre @ marker @ post
         \<and> (\<forall>pre' post'. md = pre' @ marker @ post' \<longrightarrow> length pre \<le> length pre')
         \<and> trim_metadata md = strip pre"
    by (intro exI [of _ pre] exI [of _ post]) (simp add: trim_metadata_def split_str_def)
next
  assume "\<not> sublist marker md"
  then show "trim_metadata md = md" by (simp add: trim_metadata_def)
next
  show "trim_metadata (lit ''Page 12 | Adicionado: 2024-01-01'') = lit ''Page 12''"
    by (simp add: eval_defs)
next
  show "trim_metadata (lit ''Page 12'') = lit ''Page 12''"
    by (simp add: eval_defs)
qed

text \<open>The theorem at the two examples.\<close>

theorem metadata_trimming_witness:
  "sublist marker (lit ''Page 12 | Adicionado: 2024-01-01'')
   \<and> (\<exists>pre post. lit ''Page 12 | Adicionado: 2024-01-01'' = pre @ marker @ post
         \<and> trim_metadata (lit ''Page 12 | Adicionado: 2024-01-01'') = strip pre)
   \<and> \<not> sublist marker (lit ''Page 12'')
   \<and> trim_metadata (lit ''Page 12'') = lit ''Page 12''"
proof -
  have a: "sublist marker (lit ''Page 12 | Adicionado: 2024-01-01'')"
    by (simp add: eval_defs)
  have b: "\<not> sublist marker (lit ''Page 12'')"
    by (simp add: eval_defs)
  from a metadata_trimming [of "lit ''Page 12 | Adicionado: 2024-01-01''"]
  have "\<exists>pre post. lit ''Page 12 | Adicionado: 2024-01-01'' = pre @ marker @ post
         \<and> trim_metadata (lit ''Page 12 | Adicionado: 2024-01-01'') = strip pre"
    by blast
  moreover from b metadata_trimming [of "lit ''Page 12''"]
  have "trim_metadata (lit ''Page 12'') = lit ''Page 12''" by blast
  ultimately show ?thesis using a b by blast
qed

text \<open>
  Claim C10: a book-info line that is only a parenthesised annotation is not empty, its
  derived title is empty, the record is grouped under the empty title, and the document
  of that group is saved as "_Highlights.docx".
\<close>

theorem empty_title_from_parenthesised_book_info:
  "lit ''(Author)'' \<noteq> []
   \<and> extract_book_title (lit ''(Author)'') = []
   \<and> parse (lit ''(Author)\<newline>Page 1\<newline>Hello'') =
       [([], [\<lparr>book_info = lit ''(Author)'', metadata = lit ''Page 1'',
               highlight_text = lit ''Hello''\<rparr>])]
   \<and> doc_filename [] = lit ''_Highlights.docx''
   \<and> snd (extract_all_highlights
        \<lparr>path_exists = \<lambda>p. True, makedirs_error = \<lambda>p. None,
         read_file = \<lambda>p. FileContent (lit ''(Author)\<newline>Page 1\<newline>Hello''),
         text_error = \<lambda>t. None, save_error = \<lambda>p d. None,
         now = \<lambda>t. lit ''01/01/2024 at 10:00''\<rparr>
        (lit ''My Clippings.txt'') (lit ''highlights'')) = None
   \<and> saved_paths (fst (extract_all_highlights
        \<lparr>path_exists = \<lambda>p. True, makedirs_error = \<lambda>p. None,
         read_file = \<lambda>p. FileContent (lit ''(Author)\<newline>Page 1\<newline>Hello''),
         text_error = \<lambda>t. None, save_error = \<lambda>p d. None,
         now = \<lambda>t. lit ''01/01/2024 at 10:00''\<rparr>
        (lit ''My Clippings.txt'') (lit ''highlights''))) = [lit ''highlights/_Highlights.docx'']"
  by (simp add: eval_defs run_defs str_of_nat.simps list_ex_replicate)

end
